theory Spec2Isabelle
  imports Main
begin

section \<open>JavaScript values\<close>

text \<open>
  The values that flow through \<^verbatim>\<open>MainLayout\<close> (src/MainLayout/index.js): call-time
  arguments of the bound action callables, the fields of dispatched actions, regions,
  history entries and \<^verbatim>\<open>lastAction\<close>. Numbers only occur as payload here (no arithmetic
  is done on them), so an integer stands for them. Strings are ASCII.

  An object is a plain object: the finite map of its own properties, which are enumerable
  data properties (no accessors), with \<^verbatim>\<open>Object.prototype\<close> as its prototype. \<open>JObj\<close> is
  an ordinary object, whose properties are writable; \<open>JFrozen\<close> is an object that
  \<^verbatim>\<open>Object.freeze\<close> has frozen, whose properties are read-only. \<^verbatim>\<open>Object.prototype\<close> is the
  standard one: its members are writable data properties, but for the accessor
  \<^verbatim>\<open>__proto__\<close>. The file is a module, so its code is strict: a failed assignment throws
  a TypeError.
\<close>

datatype jsval =
    JUndefined
  | JNull
  | JBool bool
  | JNum int
  | JStr string
  | JObj "string \<Rightarrow> jsval option"
  | JFrozen "string \<Rightarrow> jsval option"

type_synonym jsobj = "string \<Rightarrow> jsval option"

datatype error = TypeError

text \<open>\<^verbatim>\<open>args[i]\<close>: reading an array past its end yields \<^verbatim>\<open>undefined\<close>.\<close>

definition arg_at :: "jsval list \<Rightarrow> nat \<Rightarrow> jsval" where
  "arg_at args i = (if i < length args then args ! i else JUndefined)"

text \<open>
  The accumulator of the loop \<^verbatim>\<open>params.reduce((acc, p, i) => ((acc[p] = args[i]), acc), {})\<close>
  is an object born as \<^verbatim>\<open>{}\<close>: it has its own properties, all created by assignment and
  so writable, and a prototype. The prototype starts as \<^verbatim>\<open>Object.prototype\<close> and changes
  only through the \<^verbatim>\<open>__proto__\<close> setter, to null or to an argument object; of such an
  object the model keeps its own properties and whether it is frozen (its own prototype is
  \<^verbatim>\<open>Object.prototype\<close>).
\<close>

datatype proto = ObjectPrototype | NullPrototype | ValuePrototype bool jsobj

record acc_obj =
  own :: jsobj
  prototype :: proto

definition empty_object :: acc_obj where
  "empty_object = \<lparr>own = Map.empty, prototype = ObjectPrototype\<rparr>"

text \<open>
  The setter of \<^verbatim>\<open>Object.prototype.__proto__\<close>, called on the accumulator: an object or
  null becomes the prototype, any other value is ignored. The accumulator is extensible
  and no argument can reach it, so the change never fails.
\<close>

definition proto_setter :: "acc_obj \<Rightarrow> jsval \<Rightarrow> acc_obj" where
  "proto_setter acc v =
     (case v of
        JObj m \<Rightarrow> acc\<lparr>prototype := ValuePrototype False m\<rparr>
      | JFrozen m \<Rightarrow> acc\<lparr>prototype := ValuePrototype True m\<rparr>
      | JNull \<Rightarrow> acc\<lparr>prototype := NullPrototype\<rparr>
      | _ \<Rightarrow> acc)"

text \<open>
  What \<^verbatim>\<open>Object.prototype\<close> does for an assignment that reaches it: the name
  \<^verbatim>\<open>__proto__\<close> runs the setter; every other name, inherited as a writable data property
  or not found at all, is created on the accumulator.
\<close>

definition assign_at_Object_prototype :: "acc_obj \<Rightarrow> string \<Rightarrow> jsval \<Rightarrow> acc_obj" where
  "assign_at_Object_prototype acc p v =
     (if p = ''__proto__'' then proto_setter acc v else acc\<lparr>own := (own acc)(p \<mapsto> v)\<rparr>)"

text \<open>
  \<^verbatim>\<open>acc[p] = v\<close>: an own property is overwritten. Otherwise the name is looked up along
  the prototype chain. With a null prototype it is not found, and the property is created.
  With an argument object as prototype, a property of that object decides: a writable one
  lets the property be created on the accumulator, a read-only one (the object is frozen)
  makes the assignment throw; a name the object does not have goes on to
  \<^verbatim>\<open>Object.prototype\<close>.
\<close>

definition assign_prop :: "acc_obj \<Rightarrow> string \<Rightarrow> jsval \<Rightarrow> error + acc_obj" where
  "assign_prop acc p v =
     (if own acc p \<noteq> None then Inr (acc\<lparr>own := (own acc)(p \<mapsto> v)\<rparr>)
      else
        (case prototype acc of
           NullPrototype \<Rightarrow> Inr (acc\<lparr>own := (own acc)(p \<mapsto> v)\<rparr>)
         | ValuePrototype frozen m \<Rightarrow>
             (if m p \<noteq> None
              then (if frozen then Inl TypeError else Inr (acc\<lparr>own := (own acc)(p \<mapsto> v)\<rparr>))
              else Inr (assign_at_Object_prototype acc p v))
         | ObjectPrototype \<Rightarrow> Inr (assign_at_Object_prototype acc p v)))"

text \<open>Decimal rendering of an array index, as used for the property names of a string.\<close>

fun show_nat :: "nat \<Rightarrow> string" where
  "show_nat n =
     (if n < 10 then [''0123456789'' ! n]
      else show_nat (n div 10) @ [''0123456789'' ! (n mod 10)])"

declare show_nat.simps [simp del]

text \<open>
  \<^verbatim>\<open>{...v}\<close>: object spread copies the own enumerable properties of \<^verbatim>\<open>v\<close>, frozen
  or not. Undefined, null, booleans and numbers have none; a string has one per character,
  named by its index.
\<close>

fun spread :: "jsval \<Rightarrow> jsobj" where
  "spread (JObj m) = m"
| "spread (JFrozen m) = m"
| "spread (JStr s) = map_of (zip (map show_nat [0..<length s]) (map (\<lambda>c. JStr [c]) s))"
| "spread JUndefined = Map.empty"
| "spread JNull = Map.empty"
| "spread (JBool b) = Map.empty"
| "spread (JNum n) = Map.empty"

section \<open>The bound-action cache\<close>

text \<open>
  \<^verbatim>\<open>
  const memoizedActionFns = useRef({})
  const action = (type: string, ...params: Array<string>) => {
    const fnKey = `${type}(${params.join(",")})`
    if (memoizedActionFns.current[fnKey])
      return memoizedActionFns.current[fnKey]

    const fn = (...args: any) =>
      params.length > 0
        ? dispatch(
            ({
              type,
              ...params.reduce((acc, p, i) => ((acc[p] = args[i]), acc), {}),
            }: any)
          )
        : dispatch({ type, ...args[0] })
    memoizedActionFns.current[fnKey] = fn
    return fn
  }
  \<close>
  A function object is a closure over \<^verbatim>\<open>dispatch\<close>, \<^verbatim>\<open>type\<close> and \<^verbatim>\<open>params\<close>. Function
  objects live in a heap (the list \<open>fn_heap\<close>); a reference is an index into it, and
  two callables are identical (\<^verbatim>\<open>===\<close>) exactly when their references are equal.
  Every evaluation of the arrow expression allocates a new function object.
\<close>

record 'x action_fn =
  fn_dispatch :: "jsobj \<Rightarrow> 'x"
  fn_type :: string
  fn_params :: "string list"

record 'x action_cache =
  memoizedActionFns :: "string \<Rightarrow> nat option"
  fn_heap :: "'x action_fn list"

text \<open>\<^verbatim>\<open>useRef({})\<close> on mount: an empty table; no function has been allocated by it.\<close>

definition initial_cache :: "'x action_cache" where
  "initial_cache = \<lparr>memoizedActionFns = Map.empty, fn_heap = []\<rparr>"

text \<open>\<^verbatim>\<open>params.join(",")\<close>\<close>

fun join :: "string \<Rightarrow> string list \<Rightarrow> string" where
  "join sep [] = []"
| "join sep [p] = p"
| "join sep (p # q # ps) = p @ sep @ join sep (q # ps)"

definition fnKey :: "string \<Rightarrow> string list \<Rightarrow> string" where
  "fnKey type params = type @ ''('' @ join '','' params @ '')''"

text \<open>The property names every plain object inherits from \<^verbatim>\<open>Object.prototype\<close>.\<close>

definition Object_prototype_names :: "string list" where
  "Object_prototype_names =
     [''constructor'', ''__defineGetter__'', ''__defineSetter__'', ''hasOwnProperty'',
      ''__lookupGetter__'', ''__lookupSetter__'', ''isPrototypeOf'', ''propertyIsEnumerable'',
      ''toString'', ''valueOf'', ''__proto__'', ''toLocaleString'']"

text \<open>
  The table only ever stores function objects, which are truthy, so the test
  \<^verbatim>\<open>if (memoizedActionFns.current[fnKey])\<close> succeeds exactly when the key is present.
  The call returns the callable's reference and the updated table and heap.
\<close>

definition action :: "(jsobj \<Rightarrow> 'x) \<Rightarrow> 'x action_cache \<Rightarrow> string \<Rightarrow> string list \<Rightarrow> nat \<times> 'x action_cache" where
  "action dispatch st type params =
     (case memoizedActionFns st (fnKey type params) of
        Some f \<Rightarrow> (f, st)
      | None \<Rightarrow>
          (length (fn_heap st),
           st\<lparr>memoizedActionFns := (memoizedActionFns st)(fnKey type params \<mapsto> length (fn_heap st)),
              fn_heap := fn_heap st @
                [\<lparr>fn_dispatch = dispatch, fn_type = type, fn_params = params\<rparr>]\<rparr>))"

text \<open>Further bind calls, in order, with the same dispatch sink.\<close>

fun bind_all :: "(jsobj \<Rightarrow> 'x) \<Rightarrow> (string \<times> string list) list \<Rightarrow> 'x action_cache \<Rightarrow> 'x action_cache" where
  "bind_all dispatch [] st = st"
| "bind_all dispatch ((type, params) # calls) st =
     bind_all dispatch calls (snd (action dispatch st type params))"

text \<open>
  \<^verbatim>\<open>params.reduce((acc, p, i) => ((acc[p] = args[i]), acc), {})\<close>: the loop over the
  parameter names, with the accumulator and the running index. An assignment that throws
  ends the loop.
\<close>

fun reduce_params :: "acc_obj \<Rightarrow> string list \<Rightarrow> nat \<Rightarrow> jsval list \<Rightarrow> error + acc_obj" where
  "reduce_params acc [] i args = Inr acc"
| "reduce_params acc (p # ps) i args =
     (case assign_prop acc p (arg_at args i) of
        Inl e \<Rightarrow> Inl e
      | Inr acc' \<Rightarrow> reduce_params acc' ps (Suc i) args)"

text \<open>
  The action object a callable builds from its call-time arguments: \<^verbatim>\<open>{type, ...x}\<close>
  defines \<^verbatim>\<open>type\<close> first and then copies the own properties of \<^verbatim>\<open>x\<close> over it.
\<close>

definition built_action :: "string \<Rightarrow> string list \<Rightarrow> jsval list \<Rightarrow> error + jsobj" where
  "built_action type params args =
     (if length params > 0
      then (case reduce_params empty_object params 0 args of
              Inl e \<Rightarrow> Inl e
            | Inr acc \<Rightarrow> Inr ([''type'' \<mapsto> JStr type] ++ own acc))
      else Inr ([''type'' \<mapsto> JStr type] ++ spread (arg_at args 0)))"

text \<open>
  Calling the function object: it throws when building the action throws, and otherwise
  its result is whatever \<^verbatim>\<open>dispatch\<close> returns for the action.
\<close>

definition call_fn :: "'x action_fn \<Rightarrow> jsval list \<Rightarrow> error + 'x" where
  "call_fn f args =
     (case built_action (fn_type f) (fn_params f) args of
        Inl e \<Rightarrow> Inl e
      | Inr a \<Rightarrow> Inr (fn_dispatch f a))"

text \<open>Calling through a reference; a dangling reference has no function to call.\<close>

definition call_ref :: "'x action_cache \<Rightarrow> nat \<Rightarrow> jsval list \<Rightarrow> (error + 'x) option" where
  "call_ref st f args =
     (if f < length (fn_heap st) then Some (call_fn (fn_heap st ! f) args) else None)"

text \<open>
  Invariant of the table and heap: every stored reference points into the heap, and no
  two keys share a reference.
\<close>

definition cache_ok :: "'x action_cache \<Rightarrow> bool" where
  "cache_ok st \<longleftrightarrow>
     (\<forall>k f. memoizedActionFns st k = Some f \<longrightarrow> f < length (fn_heap st)) \<and>
     (\<forall>k k' f. memoizedActionFns st k = Some f \<longrightarrow> memoizedActionFns st k' = Some f \<longrightarrow> k = k')"

text \<open>
  Calls as the file itself makes them: an action kind without an opening parenthesis, and
  parameter names that are non-empty and contain no comma.
\<close>

definition plain_call :: "string \<Rightarrow> string list \<Rightarrow> bool" where
  "plain_call type params \<longleftrightarrow>
     CHR ''('' \<notin> set type \<and> (\<forall>p \<in> set params. p \<noteq> [] \<and> CHR '','' \<notin> set p)"

text \<open>
  A table all of whose callables were bound by such calls with the dispatch sink \<open>d\<close>: each
  stored reference points to a closure over \<open>d\<close> whose own kind and names give the key
  it is stored under.
\<close>

definition cache_closures :: "(jsobj \<Rightarrow> 'x) \<Rightarrow> 'x action_cache \<Rightarrow> bool" where
  "cache_closures d st \<longleftrightarrow>
     (\<forall>k f. memoizedActionFns st k = Some f \<longrightarrow>
        f < length (fn_heap st) \<and>
        fn_dispatch (fn_heap st ! f) = d \<and>
        plain_call (fn_type (fn_heap st ! f)) (fn_params (fn_heap st ! f)) \<and>
        fnKey (fn_type (fn_heap st ! f)) (fn_params (fn_heap st ! f)) = k)"

text \<open>
  The action record as the specification words it, for comparison with \<open>built_action\<close>:
  \<^verbatim>\<open>{type, [paramNames[i]]: a[i] for each i}\<close>, a record literal whose fields are defined
  from left to right.
\<close>

fun spec_fields :: "jsobj \<Rightarrow> string list \<Rightarrow> jsval list \<Rightarrow> jsobj" where
  "spec_fields m (p # ps) (a # as) = spec_fields (m(p \<mapsto> a)) ps as"
| "spec_fields m ps as = m"

definition spec_action :: "string \<Rightarrow> string list \<Rightarrow> jsval list \<Rightarrow> jsobj" where
  "spec_action type paramNames a = spec_fields [''type'' \<mapsto> JStr type] paramNames a"

section \<open>The state and the collaborators' results\<close>

text \<open>
  The fields of \<^verbatim>\<open>state\<close> and of an image entry that the modelled expressions of
  \<^verbatim>\<open>MainLayout\<close> read. An optional field that is undefined or null is \<open>None\<close>, where the
  file treats the two alike; \<^verbatim>\<open>frameTime\<close> is compared with \<^verbatim>\<open>undefined\<close> alone and stands as
  the value it is. Times are passed through unchanged and stand as integers. The fields of
  an image entry carry the prefix \<open>img_\<close>.
\<close>

record image =
  img_src :: string
  img_name :: "string option"
  img_regions :: "jsval list option"
  img_frameTime :: jsval
  img_realSize :: "jsval option"

type_synonym keyframe_map = "(int \<times> jsval list) list"

record state =
  annotationType :: string
  selectedImage :: "string option"
  images :: "image list option"
  selectedImageFrameTime :: "int option"
  currentVideoTime :: "int option"
  videoSrc :: "string option"
  videoName :: "string option"
  videoPlaying :: bool
  videoDuration :: "int option"
  keyframes :: "keyframe_map option"
  selectedTool :: string
  taskDescription :: "string option"
  labelImages :: bool
  history :: "jsval list"
  lastAction :: jsval
  fullScreen :: bool
  settingsOpen :: bool

text \<open>
  What \<^verbatim>\<open>MainLayout\<close> obtains from code outside this file: the result of
  \<^verbatim>\<open>getActiveImage(state)\<close>, the result of \<^verbatim>\<open>useImpliedVideoRegions(state)\<close> and the
  item \<^verbatim>\<open>window.localStorage.$ANNOTATE_DEBUG_MODE\<close> (a string when set). They are inputs
  of the model. The file itself treats \<^verbatim>\<open>activeImage\<close> as possibly absent
  (\<^verbatim>\<open>activeImage ? activeImage.realSize : undefined\<close>). An absent index is null, the
  value line 83 compares it with.
\<close>

record render_env =
  currentImageIndex :: "nat option"
  activeImage :: "image option"
  impliedVideoRegions :: "jsval list"
  ANNOTATE_DEBUG_MODE :: "string option"

section \<open>The canvas element\<close>

text \<open>
  \<^verbatim>\<open>
  regions={
    state.annotationType === "image"
      ? activeImage.regions || []
      : impliedVideoRegions
  }
  \<close>
  Reading \<^verbatim>\<open>.regions\<close> of an absent \<^verbatim>\<open>activeImage\<close> throws a TypeError. An array is
  truthy even when empty, so \<^verbatim>\<open>||\<close> replaces only an absent \<^verbatim>\<open>regions\<close>.
\<close>

definition canvas_regions :: "state \<Rightarrow> image option \<Rightarrow> jsval list \<Rightarrow> error + jsval list" where
  "canvas_regions st active implied =
     (if annotationType st = ''image''
      then (case active of
              None \<Rightarrow> Inl TypeError
            | Some img \<Rightarrow> Inr (case img_regions img of None \<Rightarrow> [] | Some rs \<Rightarrow> rs))
      else Inr implied)"

text \<open>\<^verbatim>\<open>String.prototype.includes\<close>\<close>

fun str_includes :: "string \<Rightarrow> string \<Rightarrow> bool" where
  "str_includes [] sub = (sub = [])"
| "str_includes (c # cs) sub = (take (length sub) (c # cs) = sub \<or> str_includes cs sub)"

text \<open>
  The derived props of \<^verbatim>\<open><ImageCanvas ... />\<close>. Props copied unchanged from the settings
  and the state (\<^verbatim>\<open>showMask\<close>, \<^verbatim>\<open>showTags\<close>, \<^verbatim>\<open>allowedArea\<close>, ...) and the event-handler
  props, which are callables bound through \<open>action\<close>, are not part of the record.
\<close>

record canvas =
  cv_key :: "string option"
  cv_regions :: "jsval list"
  cv_realSize :: "jsval option"
  cv_videoPlaying :: bool
  cv_imageSrc :: "string option"
  cv_videoSrc :: "string option"
  cv_createWithPrimary :: bool
  cv_dragWithPrimary :: bool
  cv_zoomWithPrimary :: bool
  cv_videoTime :: "int option"

definition ImageCanvas :: "state \<Rightarrow> render_env \<Rightarrow> error + canvas" where
  "ImageCanvas st env =
     (case canvas_regions st (activeImage env) (impliedVideoRegions env) of
        Inl e \<Rightarrow> Inl e
      | Inr rs \<Rightarrow>
          Inr \<lparr>cv_key = selectedImage st,
               cv_regions = rs,
               cv_realSize = (case activeImage env of None \<Rightarrow> None | Some img \<Rightarrow> img_realSize img),
               cv_videoPlaying = videoPlaying st,
               cv_imageSrc = (if annotationType st = ''image'' then selectedImage st else None),
               cv_videoSrc = (if annotationType st = ''video'' then videoSrc st else None),
               cv_createWithPrimary = str_includes (selectedTool st) ''create'',
               cv_dragWithPrimary = (selectedTool st = ''pan''),
               cv_zoomWithPrimary = (selectedTool st = ''zoom''),
               cv_videoTime = (if annotationType st = ''image''
                               then selectedImageFrameTime st else currentVideoTime st)\<rparr>)"

text \<open>
  \<^verbatim>\<open>
  let nextImage
  if (currentImageIndex !== null) {
    nextImage = state.images[currentImageIndex + 1]
  }
  \<close>
  Indexing an absent \<^verbatim>\<open>images\<close> throws; an index past the end reads \<^verbatim>\<open>undefined\<close>.
\<close>

definition nextImage :: "state \<Rightarrow> nat option \<Rightarrow> error + image option" where
  "nextImage st idx =
     (case idx of
        None \<Rightarrow> Inr None
      | Some i \<Rightarrow>
          (case images st of
             None \<Rightarrow> Inl TypeError
           | Some imgs \<Rightarrow> Inr (if i + 1 < length imgs then Some (imgs ! (i + 1)) else None)))"

section \<open>The debug flag\<close>

text \<open>
  \<^verbatim>\<open>const debugModeOn = Boolean(window.localStorage.$ANNOTATE_DEBUG_MODE && state)\<close>
  The values these expressions range over: the storage item (undefined or a string), a
  boolean, or the state object. \<^verbatim>\<open>a && b\<close> is \<^verbatim>\<open>b\<close> when \<^verbatim>\<open>a\<close> is truthy and \<^verbatim>\<open>a\<close>
  otherwise.
\<close>

datatype dbg_value = Undefined | StorageString string | Bool bool | StateObject state

fun truthy :: "dbg_value \<Rightarrow> bool" where
  "truthy Undefined = False"
| "truthy (StorageString s) = (s \<noteq> [])"
| "truthy (Bool b) = b"
| "truthy (StateObject st) = True"

definition js_and :: "dbg_value \<Rightarrow> dbg_value \<Rightarrow> dbg_value" where
  "js_and a b = (if truthy a then b else a)"

definition storage_item :: "string option \<Rightarrow> dbg_value" where
  "storage_item item = (case item of None \<Rightarrow> Undefined | Some s \<Rightarrow> StorageString s)"

definition debugModeOn :: "state \<Rightarrow> render_env \<Rightarrow> dbg_value" where
  "debugModeOn st env =
     Bool (truthy (js_and (storage_item (ANNOTATE_DEBUG_MODE env)) (StateObject st)))"

section \<open>The first return: the Workspace layout\<close>

record keyframe_timeline =
  kt_currentTime :: "int option"
  kt_duration :: "int option"
  kt_keyframes :: "keyframe_map option"

datatype sidebar_item =
    DebugBox dbg_value jsval
  | TaskDescription string
  | TagsSidebarBox "image option"
  | ImageSelector "image list"
  | RegionSelector "jsval list option"
  | KeyframesSelector "int option" "int option" keyframe_map
  | HistorySidebarBox "jsval list"

text \<open>
  \<^verbatim>\<open>[c1 && e1, c2 && e2, ...].filter(Boolean)\<close>: an entry whose guard is falsy is dropped.
\<close>

fun filter_Boolean :: "'a option list \<Rightarrow> 'a list" where
  "filter_Boolean [] = []"
| "filter_Boolean (None # xs) = filter_Boolean xs"
| "filter_Boolean (Some x # xs) = x # filter_Boolean xs"

text \<open>
  \<^verbatim>\<open>
  debugModeOn && (
    <DebugBox state={debugModeOn} lastAction={state.lastAction} />
  ),
  \<close>
\<close>

definition debug_item :: "state \<Rightarrow> render_env \<Rightarrow> sidebar_item option" where
  "debug_item st env =
     (if truthy (debugModeOn st env)
      then Some (DebugBox (debugModeOn st env) (lastAction st))
      else None)"

definition rightSidebarItems :: "state \<Rightarrow> render_env \<Rightarrow> sidebar_item list" where
  "rightSidebarItems st env =
     filter_Boolean
       [debug_item st env,
        (case taskDescription st of
           None \<Rightarrow> None
         | Some d \<Rightarrow> if d \<noteq> [] then Some (TaskDescription d) else None),
        (if labelImages st then Some (TagsSidebarBox (activeImage env)) else None),
        (case images st of
           None \<Rightarrow> None
         | Some imgs \<Rightarrow> if length imgs > 1 then Some (ImageSelector imgs) else None),
        Some (RegionSelector
                (case activeImage env of None \<Rightarrow> None | Some img \<Rightarrow> img_regions img)),
        (case keyframes st of
           None \<Rightarrow> None
         | Some kfs \<Rightarrow> Some (KeyframesSelector (currentVideoTime st) (videoDuration st) kfs)),
        Some (HistorySidebarBox (history st))]"

definition headerLeftSide :: "state \<Rightarrow> keyframe_timeline list" where
  "headerLeftSide st =
     filter_Boolean
       [if annotationType st = ''video''
        then Some \<lparr>kt_currentTime = currentVideoTime st, kt_duration = videoDuration st,
                   kt_keyframes = keyframes st\<rparr>
        else None]"

definition headerItems :: "state \<Rightarrow> string list" where
  "headerItems st =
     filter_Boolean
       [Some ''Prev'', Some ''Next'',
        (if annotationType st \<noteq> ''video'' then None
         else if \<not> videoPlaying st then Some ''Play'' else Some ''Pause''),
        Some ''Settings'', Some ''Fullscreen'', Some ''Save'']"

text \<open>Name, helper text and the \<^verbatim>\<open>selected\<close> mark of each icon of the tool bar.\<close>

definition iconSidebarItems :: "(string \<times> string \<times> bool) list" where
  "iconSidebarItems =
     [(''select'', ''Select'', True),
      (''pan'', ''Drag/Pan'', False),
      (''zoom'', ''Zoom In/Out'', False),
      (''show-tags'', ''Show / Hide Tags'', False),
      (''create-point'', ''Add Point'', False),
      (''create-box'', ''Add Bounding Box'', False),
      (''create-polygon'', ''Add Polygon'', False),
      (''create-expanding-line'', ''Add Expanding Line'', False),
      (''show-mask'', ''Show / Hide Mask'', False)]"

record workspace =
  ws_headerLeftSide :: "keyframe_timeline list"
  ws_headerItems :: "string list"
  ws_iconSidebarItems :: "(string \<times> string \<times> bool) list"
  ws_rightSidebarItems :: "sidebar_item list"
  ws_children :: canvas

definition Workspace_layout :: "state \<Rightarrow> render_env \<Rightarrow> canvas \<Rightarrow> workspace" where
  "Workspace_layout st env cv =
     \<lparr>ws_headerLeftSide = headerLeftSide st,
      ws_headerItems = headerItems st,
      ws_iconSidebarItems = iconSidebarItems,
      ws_rightSidebarItems = rightSidebarItems st env,
      ws_children = cv\<rparr>"

section \<open>The second return: the Fullscreen layout\<close>

datatype handler = RefocusOnMouseEvent

record header =
  hd_videoMode :: bool
  hd_inFullScreen :: bool
  hd_isAVideoFrame :: bool
  hd_nextVideoFrameHasRegions :: bool
  hd_multipleImages :: bool
  hd_title :: "string option"

text \<open>\<^verbatim>\<open>const isAVideoFrame = activeImage && activeImage.frameTime !== undefined\<close>\<close>

definition isAVideoFrame :: "image option \<Rightarrow> bool" where
  "isAVideoFrame active = (case active of None \<Rightarrow> False | Some img \<Rightarrow> img_frameTime img \<noteq> JUndefined)"

text \<open>
  \<^verbatim>\<open>!nextImage || (nextImage.regions && nextImage.regions.length > 0)\<close>
\<close>

definition nextVideoFrameHasRegions :: "image option \<Rightarrow> bool" where
  "nextVideoFrameHasRegions next_img =
     (case next_img of
        None \<Rightarrow> True
      | Some img \<Rightarrow> (case img_regions img of None \<Rightarrow> False | Some rs \<Rightarrow> length rs > 0))"

text \<open>
  \<^verbatim>\<open>
  title={
    state.annotationType === "image"
      ? activeImage
        ? activeImage.name
        : "No Image Selected"
      : state.videoName || ""
  }
  \<close>
\<close>

definition title :: "state \<Rightarrow> image option \<Rightarrow> string option" where
  "title st active =
     (if annotationType st = ''image''
      then (case active of None \<Rightarrow> Some ''No Image Selected'' | Some img \<Rightarrow> img_name img)
      else Some (case videoName st of None \<Rightarrow> [] | Some n \<Rightarrow> n))"

text \<open>
  The Fullscreen element with the HotkeyDiv inside it: the two pointer handlers of the
  HotkeyDiv, the Header, the canvas or the "No Image Selected" placeholder (\<open>None\<close>), the
  \<^verbatim>\<open>debug\<close> prop of the Sidebar and the \<^verbatim>\<open>open\<close> prop of the SettingsDialog.
\<close>

record fullscreen =
  fs_enabled :: bool
  fs_onMouseDown :: handler
  fs_onMouseOver :: handler
  fs_header :: header
  fs_canvas :: "canvas option"
  fs_sidebar_debug :: dbg_value
  fs_settings_open :: bool

definition Fullscreen_layout :: "state \<Rightarrow> render_env \<Rightarrow> image option \<Rightarrow> canvas \<Rightarrow> fullscreen" where
  "Fullscreen_layout st env next_img cv =
     \<lparr>fs_enabled = fullScreen st,
      fs_onMouseDown = RefocusOnMouseEvent,
      fs_onMouseOver = RefocusOnMouseEvent,
      fs_header =
        \<lparr>hd_videoMode = (annotationType st = ''video''),
         hd_inFullScreen = fullScreen st,
         hd_isAVideoFrame = isAVideoFrame (activeImage env),
         hd_nextVideoFrameHasRegions = nextVideoFrameHasRegions next_img,
         hd_multipleImages = (case images st of None \<Rightarrow> False | Some imgs \<Rightarrow> length imgs > 1),
         hd_title = title st (activeImage env)\<rparr>,
      fs_canvas =
        (if annotationType st = ''image'' \<and>
            (case selectedImage st of None \<Rightarrow> True | Some s \<Rightarrow> s = [])
         then None else Some cv),
      fs_sidebar_debug = js_and (storage_item (ANNOTATE_DEBUG_MODE env)) (StateObject st),
      fs_settings_open = settingsOpen st\<rparr>"

section \<open>The render function\<close>

text \<open>
  The body of \<^verbatim>\<open>MainLayout\<close> is a sequence of statements. A statement completes normally,
  and the next one runs, or it returns a value, and the rest of the body is skipped. The
  body ends with two \<^verbatim>\<open>return\<close> statements, one after the other.
\<close>

datatype view = Workspace workspace | Fullscreen fullscreen

datatype 'a completion = Normal | Return 'a

definition then_stmt :: "'a completion \<Rightarrow> 'a completion \<Rightarrow> 'a completion" where
  "then_stmt s1 s2 = (case s1 of Return v \<Rightarrow> Return v | Normal \<Rightarrow> s2)"

definition MainLayout :: "state \<Rightarrow> render_env \<Rightarrow> error + view completion" where
  "MainLayout st env =
     (case nextImage st (currentImageIndex env) of
        Inl e \<Rightarrow> Inl e
      | Inr next_img \<Rightarrow>
          (case ImageCanvas st env of
             Inl e \<Rightarrow> Inl e
           | Inr cv \<Rightarrow>
               Inr (then_stmt
                      (Return (Workspace (Workspace_layout st env cv)))
                      (Return (Fullscreen (Fullscreen_layout st env next_img cv))))))"

section \<open>The refocus handler\<close>

text \<open>
  \<^verbatim>\<open>
  const refocusOnMouseEvent = useCallback((e) => {
    if (!innerContainerRef.current) return
    if (innerContainerRef.current.contains(document.activeElement)) return
    if (innerContainerRef.current.contains(e.target)) {
      innerContainerRef.current.focus()
      e.target.focus()
    }
  }, [])
  \<close>
  A DOM element is a node with an identity and children. \<^verbatim>\<open>a.contains(b)\<close> holds
  when \<^verbatim>\<open>b\<close> is \<^verbatim>\<open>a\<close> or one of its descendants, and fails for null. The document
  records the focused element, which elements can take focus, and, as a trace, the
  elements on which \<^verbatim>\<open>focus()\<close> has been called.
\<close>

datatype element = Element nat "element list"

fun node_ids :: "element \<Rightarrow> nat list" where
  "node_ids (Element n cs) = n # concat (map node_ids cs)"

fun root_id :: "element \<Rightarrow> nat" where
  "root_id (Element n cs) = n"

definition contains :: "element \<Rightarrow> nat option \<Rightarrow> bool" where
  "contains root other = (case other of None \<Rightarrow> False | Some n \<Rightarrow> n \<in> set (node_ids root))"

record document =
  activeElement :: "nat option"
  focusable :: "nat \<Rightarrow> bool"
  focus_calls :: "nat list"

definition focus :: "nat \<Rightarrow> document \<Rightarrow> document" where
  "focus n doc =
     doc\<lparr>activeElement := (if focusable doc n then Some n else activeElement doc),
         focus_calls := focus_calls doc @ [n]\<rparr>"

definition refocusOnMouseEvent :: "element option \<Rightarrow> nat \<Rightarrow> document \<Rightarrow> document" where
  "refocusOnMouseEvent innerContainerRef target doc =
     (case innerContainerRef of
        None \<Rightarrow> doc
      | Some c \<Rightarrow>
          if contains c (activeElement doc) then doc
          else if contains c (Some target) then focus target (focus (root_id c) doc)
          else doc)"

section \<open>Implied video regions\<close>

text \<open>
  Modelled from the spec: \<^verbatim>\<open>useImpliedVideoRegions\<close> (./use-implied-video-regions) is
  imported by \<^verbatim>\<open>MainLayout\<close> and is not among the sources. Specification 4.4: a time
  that matches a keyframe key yields that keyframe's region set unmodified; a time between
  two keys yields a set computed from both neighbours; a time before the first or after
  the last key yields the nearest keyframe's set; no keyframes yield the empty set. The
  rule for two neighbours is left open by the specification and is the parameter
  \<open>between\<close>, which receives the nearest earlier key and its regions, the nearest later
  key and its regions, and the time. Keys are unique.
\<close>

definition regions_at :: "keyframe_map \<Rightarrow> int \<Rightarrow> jsval list" where
  "regions_at kfs k = (case map_of kfs k of None \<Rightarrow> [] | Some rs \<Rightarrow> rs)"

definition impliedRegions ::
  "(int \<Rightarrow> jsval list \<Rightarrow> int \<Rightarrow> jsval list \<Rightarrow> int \<Rightarrow> jsval list) \<Rightarrow> keyframe_map \<Rightarrow> int \<Rightarrow> jsval list" where
  "impliedRegions between kfs t =
     (case map_of kfs t of
        Some rs \<Rightarrow> rs
      | None \<Rightarrow>
          (case (filter (\<lambda>k. k < t) (map fst kfs), filter (\<lambda>k. t < k) (map fst kfs)) of
             ([], []) \<Rightarrow> []
           | ([], l # ls) \<Rightarrow> regions_at kfs (fold min ls l)
           | (e # es, []) \<Rightarrow> regions_at kfs (fold max es e)
           | (e # es, l # ls) \<Rightarrow>
               between (fold max es e) (regions_at kfs (fold max es e))
                       (fold min ls l) (regions_at kfs (fold min ls l)) t))"


section \<open>Properties of the bound-action cache\<close>

text \<open>
  The table is a plain object, so a lookup also sees the properties inherited from
  \<^verbatim>\<open>Object.prototype\<close>. A key always ends with a closing parenthesis and none of the
  inherited names does, so the lookup is a lookup among the stored keys.
\<close>

lemma fnKey_last: "last (fnKey type params) = CHR '')''"
  by (simp add: fnKey_def)

lemma fnKey_not_inherited: "fnKey type params \<notin> set Object_prototype_names"
proof
  assume "fnKey type params \<in> set Object_prototype_names"
  then have "last (fnKey type params) \<noteq> CHR '')''"
    by (auto simp: Object_prototype_names_def)
  then show False by (simp add: fnKey_last)
qed

lemma action_keeps_entry:
  "memoizedActionFns st k = Some f \<Longrightarrow>
   memoizedActionFns (snd (action d st t ps)) k = Some f"
  by (auto simp: action_def split: option.splits)

lemma bind_all_keeps_entry:
  "memoizedActionFns st k = Some f \<Longrightarrow> memoizedActionFns (bind_all d calls st) k = Some f"
proof (induction calls arbitrary: st)
  case Nil
  then show ?case by simp
next
  case (Cons c calls)
  obtain t ps where c: "c = (t, ps)" by (cases c)
  from Cons.prems have "memoizedActionFns (snd (action d st t ps)) k = Some f"
    by (rule action_keeps_entry)
  then show ?case using Cons.IH c by simp
qed

lemma action_stores_result:
  "action d st t ps = (f, st') \<Longrightarrow> memoizedActionFns st' (fnKey t ps) = Some f"
  by (auto simp: action_def split: option.splits)

lemma action_hit:
  "memoizedActionFns st (fnKey t ps) = Some f \<Longrightarrow> action d st t ps = (f, st)"
  by (simp add: action_def)

text \<open>
  C2 (bind stability). With one dispatch sink, once the cache has returned a callable
  for an action kind and parameter-name list, every later call with the same kind and
  list, after any number of other bind calls, returns the identical callable and
  leaves the table as it is.
\<close>

theorem action_stable:
  assumes "action d st t ps = (f, st1)"
  shows "action d (bind_all d calls st1) t ps = (f, bind_all d calls st1)"
proof -
  from assms have "memoizedActionFns st1 (fnKey t ps) = Some f"
    by (rule action_stores_result)
  then have "memoizedActionFns (bind_all d calls st1) (fnKey t ps) = Some f"
    by (rule bind_all_keeps_entry)
  then show ?thesis by (rule action_hit)
qed

text \<open>
  \<^verbatim>\<open>bind(d, "X", "a", "b")\<close> on a fresh table, another bind, and
  \<^verbatim>\<open>bind(d, "X", "a", "b")\<close> again: the same reference.
\<close>

theorem action_stable_witness:
  "fst (action (id :: jsobj \<Rightarrow> jsobj)
          (bind_all id [(''Y'', [])] (snd (action id initial_cache ''X'' [''a'', ''b''])))
          ''X'' [''a'', ''b''])
   = fst (action (id :: jsobj \<Rightarrow> jsobj) initial_cache ''X'' [''a'', ''b''])
   \<and> fst (action (id :: jsobj \<Rightarrow> jsobj) initial_cache ''X'' [''a'', ''b'']) = 0"
  using action_stable [of "id :: jsobj \<Rightarrow> jsobj" initial_cache "''X''" "[''a'', ''b'']"
      "fst (action id initial_cache ''X'' [''a'', ''b''])"
      "snd (action id initial_cache ''X'' [''a'', ''b''])" "[(''Y'', [])]"]
  by (simp add: action_def initial_cache_def)

subsection \<open>Distinct keys, distinct callables\<close>

lemma cache_ok_initial: "cache_ok initial_cache"
  by (simp add: cache_ok_def initial_cache_def)

lemma cache_ok_action: "cache_ok st \<Longrightarrow> cache_ok (snd (action d st t ps))"
  unfolding cache_ok_def action_def
  by (auto split: option.splits if_splits simp: less_Suc_eq)

lemma cache_ok_bind_all: "cache_ok st \<Longrightarrow> cache_ok (bind_all d calls st)"
proof (induction calls arbitrary: st)
  case Nil
  then show ?case by simp
next
  case (Cons c calls)
  obtain t ps where c: "c = (t, ps)" by (cases c)
  show ?case using Cons.IH [OF cache_ok_action [OF Cons.prems]] c by simp
qed

lemma action_result_cases:
  "action d st t ps = (f, st') \<Longrightarrow>
     memoizedActionFns st (fnKey t ps) = Some f \<or>
     (memoizedActionFns st (fnKey t ps) = None \<and> f = length (fn_heap st))"
  by (auto simp: action_def split: option.splits)

lemma distinct_keys_distinct_refs:
  assumes ok: "cache_ok st0"
    and a1: "action d st0 t1 ps1 = (f1, st1)"
    and a2: "action d (bind_all d calls st1) t2 ps2 = (f2, st3)"
    and keys: "fnKey t1 ps1 \<noteq> fnKey t2 ps2"
  shows "f1 \<noteq> f2"
proof -
  let ?st2 = "bind_all d calls st1"
  have "cache_ok st1" using cache_ok_action [OF ok, of d t1 ps1] a1 by simp
  then have ok2: "cache_ok ?st2" by (rule cache_ok_bind_all)
  have "memoizedActionFns st1 (fnKey t1 ps1) = Some f1"
    using a1 by (rule action_stores_result)
  then have m1: "memoizedActionFns ?st2 (fnKey t1 ps1) = Some f1"
    by (rule bind_all_keeps_entry)
  from action_result_cases [OF a2] show ?thesis
  proof
    assume "memoizedActionFns ?st2 (fnKey t2 ps2) = Some f2"
    then show ?thesis using m1 ok2 keys unfolding cache_ok_def by blast
  next
    assume "memoizedActionFns ?st2 (fnKey t2 ps2) = None \<and> f2 = length (fn_heap ?st2)"
    moreover have "f1 < length (fn_heap ?st2)" using m1 ok2 unfolding cache_ok_def by blast
    ultimately show ?thesis by simp
  qed
qed

lemma join_nonempty: "p \<noteq> [] \<Longrightarrow> join sep (p # ps) \<noteq> []"
  by (cases ps) auto

lemma join_Cons: "join sep (p # ps) = (if ps = [] then p else p @ sep @ join sep ps)"
  by (cases ps) auto

lemma head_split:
  assumes "c \<notin> set p" "c \<notin> set q" "p @ c # r = q @ c # s"
  shows "p = q \<and> r = s"
proof -
  have "takeWhile (\<lambda>x. x \<noteq> c) (p @ c # r) = p" "takeWhile (\<lambda>x. x \<noteq> c) (q @ c # s) = q"
    using assms(1,2) by (auto simp: takeWhile_tail)
  then have "p = q" using assms(3) by simp
  then show ?thesis using assms(3) by simp
qed

lemma join_inj:
  assumes "\<forall>p \<in> set ps. p \<noteq> [] \<and> CHR '','' \<notin> set p"
    and "\<forall>q \<in> set qs. q \<noteq> [] \<and> CHR '','' \<notin> set q"
    and "join '','' ps = join '','' qs"
  shows "ps = qs"
  using assms
proof (induction ps arbitrary: qs)
  case Nil
  show ?case
  proof (cases qs)
    case Nil
    then show ?thesis by simp
  next
    case (Cons q qs')
    then have "q \<noteq> []" using Nil.prems by simp
    then have "join '','' (q # qs') \<noteq> []" by (rule join_nonempty)
    then show ?thesis using Nil.prems Cons by simp
  qed
next
  case (Cons p ps)
  have "p \<noteq> []" using Cons.prems by simp
  then have "join '','' (p # ps) \<noteq> []" by (rule join_nonempty)
  then obtain q qs' where qs: "qs = q # qs'"
    using Cons.prems(3) by (cases qs) auto
  have pc: "CHR '','' \<notin> set p" "p \<noteq> []" and qc: "CHR '','' \<notin> set q" "q \<noteq> []"
    using Cons.prems qs by auto
  have eq: "join '','' (p # ps) = join '','' (q # qs')" using Cons.prems qs by simp
  show ?case
  proof (cases "ps = []")
    case True
    show ?thesis
    proof (cases "qs' = []")
      case True
      then show ?thesis using eq \<open>ps = []\<close> qs by simp
    next
      case False
      then have "p = q @ CHR '','' # join '','' qs'" using eq \<open>ps = []\<close> by (simp add: join_Cons)
      then show ?thesis using pc by auto
    qed
  next
    case False
    show ?thesis
    proof (cases "qs' = []")
      case True
      then have "q = p @ CHR '','' # join '','' ps" using eq \<open>ps \<noteq> []\<close> by (simp add: join_Cons)
      then show ?thesis using qc by auto
    next
      case qf: False
      have "p @ CHR '','' # join '','' ps = q @ CHR '','' # join '','' qs'"
        using eq False qf by (simp add: join_Cons)
      from head_split [OF pc(1) qc(1) this] have "p = q" "join '','' ps = join '','' qs'" by auto
      moreover have "ps = qs'"
        using Cons.IH [of qs'] Cons.prems qs \<open>join '','' ps = join '','' qs'\<close> by auto
      ultimately show ?thesis using qs by simp
    qed
  qed
qed

lemma fnKey_inj:
  assumes "plain_call t1 ps1" "plain_call t2 ps2" "fnKey t1 ps1 = fnKey t2 ps2"
  shows "t1 = t2 \<and> ps1 = ps2"
proof -
  have "t1 @ CHR ''('' # (join '','' ps1 @ '')'') = t2 @ CHR ''('' # (join '','' ps2 @ '')'')"
    using assms(3) by (simp add: fnKey_def)
  from head_split [OF _ _ this] assms(1,2)
  have "t1 = t2" "join '','' ps1 = join '','' ps2" by (auto simp: plain_call_def)
  then show ?thesis using join_inj [of ps1 ps2] assms(1,2) by (auto simp: plain_call_def)
qed

text \<open>
  C5 (bind distinctness), as the code has it. The cache memoizes one callable per key
  \<^verbatim>\<open>type(p1,...,pn)\<close>. On a table that started empty, two calls whose keys differ return
  distinct callables, whatever other bind calls come before and between them. Two
  different pairs of action kind and parameter-name list have different keys, hence
  distinct callables, when the kinds contain no opening parenthesis and the names are
  non-empty and contain no comma; so \<^verbatim>\<open>bind(d,"X","a")\<close> and \<^verbatim>\<open>bind(d,"X","b")\<close> return
  different callables.
\<close>

theorem action_distinct:
  assumes "action d (bind_all d calls0 initial_cache) t1 ps1 = (f1, st1)"
    and "action d (bind_all d calls1 st1) t2 ps2 = (f2, st2)"
  shows "(fnKey t1 ps1 \<noteq> fnKey t2 ps2 \<longrightarrow> f1 \<noteq> f2)
       \<and> (plain_call t1 ps1 \<and> plain_call t2 ps2 \<and> (t1, ps1) \<noteq> (t2, ps2) \<longrightarrow> f1 \<noteq> f2)"
proof -
  have ok: "cache_ok (bind_all d calls0 (initial_cache :: 'a action_cache))"
    by (rule cache_ok_bind_all [OF cache_ok_initial])
  have A: "f1 \<noteq> f2" if "fnKey t1 ps1 \<noteq> fnKey t2 ps2"
    using distinct_keys_distinct_refs [OF ok assms that] .
  moreover have "fnKey t1 ps1 \<noteq> fnKey t2 ps2"
    if "plain_call t1 ps1" "plain_call t2 ps2" "(t1, ps1) \<noteq> (t2, ps2)"
    using fnKey_inj [OF that(1,2)] that(3) by auto
  ultimately show ?thesis by blast
qed

text \<open>\<^verbatim>\<open>bind(d,"X","a")\<close> and then \<^verbatim>\<open>bind(d,"X","b")\<close> on a fresh table.\<close>

theorem action_distinct_witness:
  "fst (action (id :: jsobj \<Rightarrow> jsobj) initial_cache ''X'' [''a'']) = 0
   \<and> fst (action (id :: jsobj \<Rightarrow> jsobj) (snd (action id initial_cache ''X'' [''a''])) ''X'' [''b'']) = 1
   \<and> fst (action (id :: jsobj \<Rightarrow> jsobj) initial_cache ''X'' [''a''])
       \<noteq> fst (action (id :: jsobj \<Rightarrow> jsobj) (snd (action id initial_cache ''X'' [''a''])) ''X'' [''b''])"
  using action_distinct [of "id :: jsobj \<Rightarrow> jsobj" "[]" "''X''" "[''a'']"
      "fst (action id initial_cache ''X'' [''a''])" "snd (action id initial_cache ''X'' [''a''])"
      "[]" "''X''" "[''b'']"
      "fst (action id (snd (action id initial_cache ''X'' [''a''])) ''X'' [''b''])"
      "snd (action id (snd (action id initial_cache ''X'' [''a''])) ''X'' [''b''])"]
  by (simp add: action_def initial_cache_def fnKey_def plain_call_def)

text \<open>
  The pairs \<^verbatim>\<open>("X", ["a", "b"])\<close> and \<^verbatim>\<open>("X", ["a,b"])\<close> differ and share the key
  \<^verbatim>\<open>X(a,b)\<close>: the second call returns the callable of the first.
\<close>

theorem action_key_collision_counterexample:
  "(''X'', [''a'', ''b'']) \<noteq> (''X'', [''a,b''])
   \<and> fst (action (id :: jsobj \<Rightarrow> jsobj) (snd (action id initial_cache ''X'' [''a'', ''b''])) ''X'' [''a,b''])
     = fst (action (id :: jsobj \<Rightarrow> jsobj) initial_cache ''X'' [''a'', ''b''])"
  by (simp add: action_def initial_cache_def fnKey_def)

subsection \<open>The callable a bind returns\<close>

text \<open>
  On a table filled by calls as the file makes them, the callable returned for a kind and
  a list of names is the closure over the dispatch sink, that kind and those names. Later
  binds leave it in place, so calling it at any later time runs that closure.
\<close>

lemma cache_closures_initial: "cache_closures d initial_cache"
  by (simp add: cache_closures_def initial_cache_def)

lemma cache_closures_action:
  assumes "cache_closures d st" and "plain_call t ps"
  shows "cache_closures d (snd (action d st t ps))"
proof (cases "memoizedActionFns st (fnKey t ps)")
  case (Some f)
  then show ?thesis using assms(1) by (simp add: action_def)
next
  case None
  show ?thesis
    unfolding cache_closures_def
  proof (intro allI impI)
    fix k f
    assume kf: "memoizedActionFns (snd (action d st t ps)) k = Some f"
    show "f < length (fn_heap (snd (action d st t ps))) \<and>
        fn_dispatch (fn_heap (snd (action d st t ps)) ! f) = d \<and>
        plain_call (fn_type (fn_heap (snd (action d st t ps)) ! f))
          (fn_params (fn_heap (snd (action d st t ps)) ! f)) \<and>
        fnKey (fn_type (fn_heap (snd (action d st t ps)) ! f))
          (fn_params (fn_heap (snd (action d st t ps)) ! f)) = k"
    proof (cases "k = fnKey t ps")
      case True
      then have "f = length (fn_heap st)" using kf None by (simp add: action_def)
      then show ?thesis using None True assms(2) by (simp add: action_def)
    next
      case False
      then have old: "memoizedActionFns st k = Some f" using kf None by (simp add: action_def)
      then have "f < length (fn_heap st) \<and>
          fn_dispatch (fn_heap st ! f) = d \<and>
          plain_call (fn_type (fn_heap st ! f)) (fn_params (fn_heap st ! f)) \<and>
          fnKey (fn_type (fn_heap st ! f)) (fn_params (fn_heap st ! f)) = k"
        using assms(1) unfolding cache_closures_def by blast
      then show ?thesis using None by (simp add: action_def nth_append)
    qed
  qed
qed

lemma cache_closures_bind_all:
  "cache_closures d st \<Longrightarrow> \<forall>(t, ps) \<in> set calls. plain_call t ps \<Longrightarrow>
   cache_closures d (bind_all d calls st)"
proof (induction calls arbitrary: st)
  case Nil
  then show ?case by simp
next
  case (Cons c calls)
  obtain t ps where c: "c = (t, ps)" by (cases c)
  have "cache_closures d (snd (action d st t ps))"
    using Cons.prems c by (intro cache_closures_action) auto
  then have "cache_closures d (bind_all d calls (snd (action d st t ps)))"
    using Cons.prems by (intro Cons.IH) auto
  then show ?case using c by simp
qed

lemma action_returns_closure:
  assumes "cache_closures d st" and "plain_call t ps" and "action d st t ps = (f, st')"
  shows "f < length (fn_heap st') \<and>
         fn_heap st' ! f = \<lparr>fn_dispatch = d, fn_type = t, fn_params = ps\<rparr>"
proof -
  have cl: "cache_closures d st'"
    using cache_closures_action [OF assms(1,2)] assms(3) by simp
  have m: "memoizedActionFns st' (fnKey t ps) = Some f"
    using assms(3) by (rule action_stores_result)
  let ?c = "fn_heap st' ! f"
  from cl m have f: "f < length (fn_heap st')" and d: "fn_dispatch ?c = d"
    and p: "plain_call (fn_type ?c) (fn_params ?c)"
    and k: "fnKey (fn_type ?c) (fn_params ?c) = fnKey t ps"
    unfolding cache_closures_def by blast+
  from fnKey_inj [OF p assms(2) k] have "fn_type ?c = t" "fn_params ?c = ps" by auto
  then have "?c = \<lparr>fn_dispatch = d, fn_type = t, fn_params = ps\<rparr>" using d by (cases ?c) simp
  then show ?thesis using f by simp
qed

lemma action_heap_prefix:
  "f < length (fn_heap st) \<Longrightarrow>
   f < length (fn_heap (snd (action d st t ps))) \<and>
   fn_heap (snd (action d st t ps)) ! f = fn_heap st ! f"
  by (auto simp: action_def nth_append split: option.splits)

lemma bind_all_heap_prefix:
  "f < length (fn_heap st) \<Longrightarrow>
   f < length (fn_heap (bind_all d calls st)) \<and> fn_heap (bind_all d calls st) ! f = fn_heap st ! f"
proof (induction calls arbitrary: st)
  case Nil
  then show ?case by simp
next
  case (Cons c calls)
  obtain t ps where c: "c = (t, ps)" by (cases c)
  from action_heap_prefix [OF Cons.prems, of d t ps]
  have 1: "f < length (fn_heap (snd (action d st t ps)))"
    and 2: "fn_heap (snd (action d st t ps)) ! f = fn_heap st ! f" by auto
  from Cons.IH [OF 1] 2 c show ?case by simp
qed

lemma bound_callable_dispatches:
  assumes "\<forall>(t, ps) \<in> set calls. plain_call t ps" and "plain_call type params"
    and "action d (bind_all d calls initial_cache) type params = (f, st')"
  shows "call_ref (bind_all d later st') f args
           = Some (call_fn \<lparr>fn_dispatch = d, fn_type = type, fn_params = params\<rparr> args)"
proof -
  have "cache_closures d (bind_all d calls initial_cache)"
    using cache_closures_initial assms(1) by (rule cache_closures_bind_all)
  from action_returns_closure [OF this assms(2,3)]
  have "f < length (fn_heap st')"
    and "fn_heap st' ! f = \<lparr>fn_dispatch = d, fn_type = type, fn_params = params\<rparr>" by auto
  then show ?thesis using bind_all_heap_prefix [of f st' d later]
    by (simp add: call_ref_def)
qed

section \<open>The action a callable dispatches\<close>

text \<open>
  The callable bound for an action kind and a list of names is what \<^verbatim>\<open>action\<close> returns for
  them. By \<open>bound_callable_dispatches\<close>, on a table filled by the calls the file makes
  it is the closure over the dispatch sink, the kind and the names, then and after any later
  binds. With no name \<^verbatim>\<open>__proto__\<close> the prototype of the accumulator stays
  \<^verbatim>\<open>Object.prototype\<close> and every assignment of the loop creates or overwrites an own
  property; the record it builds is the record of the specification, \<open>spec_action\<close>, for
  the arguments read at the indices of the names.
\<close>

lemma map_add_spec_fields:
  "m ++ spec_fields acc ps as = spec_fields (m ++ acc) ps as"
proof (induction ps arbitrary: acc as)
  case Nil
  then show ?case by simp
next
  case (Cons p ps)
  show ?case
  proof (cases as)
    case Nil
    then show ?thesis by simp
  next
    case (Cons a as')
    have "m ++ spec_fields (acc(p \<mapsto> a)) ps as' = spec_fields (m ++ acc(p \<mapsto> a)) ps as'"
      by (rule Cons.IH)
    then show ?thesis using Cons by simp
  qed
qed

lemma dom_spec_fields:
  "length as = length ps \<Longrightarrow> dom (spec_fields acc ps as) = dom acc \<union> set ps"
proof (induction ps arbitrary: acc as)
  case Nil
  then show ?case by simp
next
  case (Cons p ps)
  then obtain a as' where as: "as = a # as'" by (cases as) auto
  have "dom (spec_fields (acc(p \<mapsto> a)) ps as') = dom (acc(p \<mapsto> a)) \<union> set ps"
    using Cons.prems as by (intro Cons.IH) simp
  then show ?case using as by auto
qed

lemma spec_fields_notin:
  "k \<notin> set ps \<Longrightarrow> spec_fields acc ps as k = acc k"
proof (induction ps arbitrary: acc as)
  case Nil
  then show ?case by simp
next
  case (Cons p ps)
  show ?case
  proof (cases as)
    case Nil
    then show ?thesis by simp
  next
    case (Cons a as')
    have "spec_fields (acc(p \<mapsto> a)) ps as' k = (acc(p \<mapsto> a)) k"
      using Cons.prems by (intro Cons.IH) simp
    then show ?thesis using Cons Cons.prems by simp
  qed
qed

lemma spec_fields_distinct:
  "distinct ps \<Longrightarrow> length as = length ps \<Longrightarrow> i < length ps \<Longrightarrow>
   spec_fields acc ps as (ps ! i) = Some (as ! i)"
proof (induction ps arbitrary: acc as i)
  case Nil
  then show ?case by simp
next
  case (Cons p ps)
  then obtain a as' where as: "as = a # as'" by (cases as) auto
  show ?case
  proof (cases i)
    case 0
    have "spec_fields (acc(p \<mapsto> a)) ps as' p = (acc(p \<mapsto> a)) p"
      using Cons.prems by (intro spec_fields_notin) simp
    then show ?thesis using 0 as by simp
  next
    case (Suc j)
    have "spec_fields (acc(p \<mapsto> a)) ps as' (ps ! j) = Some (as' ! j)"
      using Cons.prems as Suc by (intro Cons.IH) auto
    then show ?thesis using Suc as by simp
  qed
qed

lemma assign_prop_plain:
  "p \<noteq> ''__proto__'' \<Longrightarrow> prototype acc = ObjectPrototype \<Longrightarrow>
   assign_prop acc p v = Inr (acc\<lparr>own := (own acc)(p \<mapsto> v)\<rparr>)"
  by (simp add: assign_prop_def assign_at_Object_prototype_def)

lemma reduce_params_plain:
  "''__proto__'' \<notin> set ps \<Longrightarrow> prototype acc = ObjectPrototype \<Longrightarrow>
   reduce_params acc ps n args
     = Inr (acc\<lparr>own := spec_fields (own acc) ps (map (arg_at args) [n..<n + length ps])\<rparr>)"
proof (induction ps arbitrary: acc n)
  case Nil
  then show ?case by simp
next
  case (Cons p ps)
  let ?acc = "acc\<lparr>own := (own acc)(p \<mapsto> arg_at args n)\<rparr>"
  have p: "p \<noteq> ''__proto__''" using Cons.prems by auto
  have step: "assign_prop acc p (arg_at args n) = Inr ?acc"
    using p Cons.prems(2) by (rule assign_prop_plain)
  have "reduce_params ?acc ps (Suc n) args
          = Inr (?acc\<lparr>own := spec_fields (own ?acc) ps (map (arg_at args) [Suc n..<Suc n + length ps])\<rparr>)"
    using Cons.prems by (intro Cons.IH) auto
  moreover have "[n..<n + length (p # ps)] = n # [Suc n..<Suc n + length ps]"
  proof -
    have "n < Suc n + length ps" by simp
    from upt_conv_Cons [OF this] show ?thesis by (simp del: upt_Suc)
  qed
  ultimately show ?case using step by (simp del: upt_Suc)
qed

lemma map_arg_at_all: "map (arg_at args) [0..<length args] = args"
  by (rule nth_equalityI) (simp_all add: arg_at_def)

lemma built_action_plain:
  assumes "params \<noteq> []" and "''__proto__'' \<notin> set params"
  shows "built_action type params args
           = Inr (spec_action type params (map (arg_at args) [0..<length params]))"
  using assms reduce_params_plain [of params empty_object 0 args]
  by (simp add: built_action_def spec_action_def empty_object_def map_add_spec_fields)

subsection \<open>Examples of the assignment through the prototype\<close>

text \<open>
  With the names \<^verbatim>\<open>["__proto__", "__proto__"]\<close> and the argument null, the first assignment
  makes the prototype null and the second one creates an own property \<^verbatim>\<open>__proto__\<close>,
  undefined for want of a second argument.
\<close>

lemma null_prototype_own_proto:
  "built_action ''X'' [''__proto__'', ''__proto__''] [JNull]
     = Inr [''type'' \<mapsto> JStr ''X'', ''__proto__'' \<mapsto> JUndefined]"
  by (simp add: built_action_def empty_object_def assign_prop_def assign_at_Object_prototype_def
      proto_setter_def arg_at_def)

subsection \<open>As many arguments as names\<close>

text \<open>
  C3 (action shape), as the code has it. Take one dispatch sink and a table on which every
  bind so far had an action kind without an opening parenthesis and parameter names that
  are non-empty and contain no comma. For every such kind and non-empty list of such names
  that does not contain the name \<^verbatim>\<open>__proto__\<close>, the callable the bind returns, invoked then
  or after any later binds with as many arguments as names, does not throw and dispatches
  exactly the record \<^verbatim>\<open>{type, p0: a0, ..., pn: an}\<close>: its fields are \<^verbatim>\<open>type\<close> and the
  parameter names, no more and no fewer, and when the names are distinct and none is
  \<^verbatim>\<open>type\<close>, \<^verbatim>\<open>type\<close> holds the action kind and each name holds its argument.
\<close>

theorem built_action_shape:
  assumes "\<forall>(t, ps) \<in> set earlier. plain_call t ps"
    and "plain_call type params" and "params \<noteq> []" and "''__proto__'' \<notin> set params"
    and "length args = length params"
    and "action d (bind_all d earlier initial_cache) type params = (f, st)"
  shows "call_ref (bind_all d later st) f args = Some (Inr (d (spec_action type params args)))
         \<and> dom (spec_action type params args) = insert ''type'' (set params)
         \<and> (distinct params \<and> ''type'' \<notin> set params \<longrightarrow>
              spec_action type params args ''type'' = Some (JStr type)
              \<and> (\<forall>i < length params. spec_action type params args (params ! i) = Some (args ! i)))"
proof -
  have "call_ref (bind_all d later st) f args
          = Some (call_fn \<lparr>fn_dispatch = d, fn_type = type, fn_params = params\<rparr> args)"
    using assms(1,2,6) by (rule bound_callable_dispatches)
  moreover have "built_action type params args = Inr (spec_action type params args)"
    using built_action_plain [OF assms(3,4), of type args] map_arg_at_all [of args] assms(5)
    by simp
  ultimately have call: "call_ref (bind_all d later st) f args
                           = Some (Inr (d (spec_action type params args)))"
    by (simp add: call_fn_def)
  have d: "dom (spec_action type params args) = insert ''type'' (set params)"
    using assms(5) by (simp add: spec_action_def dom_spec_fields)
  have t: "spec_action type params args ''type'' = Some (JStr type)" if "''type'' \<notin> set params"
    using that by (simp add: spec_action_def spec_fields_notin)
  have f: "spec_action type params args (params ! i) = Some (args ! i)"
    if "distinct params" "i < length params" for i
    using that assms(5) by (simp add: spec_action_def spec_fields_distinct)
  show ?thesis using call d t f by simp
qed

text \<open>
  After binds of \<^verbatim>\<open>"MOUSE_MOVE"\<close> and \<^verbatim>\<open>"SELECT_REGION"\<close>, the callable bound for
  \<^verbatim>\<open>"CHANGE_REGION"\<close> with \<^verbatim>\<open>["region"]\<close>, invoked with a region \<^verbatim>\<open>R\<close> after a further bind,
  dispatches \<^verbatim>\<open>{type: "CHANGE_REGION", region: R}\<close>.
\<close>

theorem built_action_shape_witness:
  "call_ref
     (bind_all id [(''DELETE_REGION'', [''region''])]
        (snd (action (id :: jsobj \<Rightarrow> jsobj)
                (bind_all id [(''MOUSE_MOVE'', []), (''SELECT_REGION'', [''region''])] initial_cache)
                ''CHANGE_REGION'' [''region''])))
     (fst (action (id :: jsobj \<Rightarrow> jsobj)
                (bind_all id [(''MOUSE_MOVE'', []), (''SELECT_REGION'', [''region''])] initial_cache)
                ''CHANGE_REGION'' [''region'']))
     [JObj [''id'' \<mapsto> JStr ''r1'']]
   = Some (Inr [''type'' \<mapsto> JStr ''CHANGE_REGION'', ''region'' \<mapsto> JObj [''id'' \<mapsto> JStr ''r1'']])"
  using built_action_shape [of "[(''MOUSE_MOVE'', []), (''SELECT_REGION'', [''region''])]"
      "''CHANGE_REGION''" "[''region'']" "[JObj [''id'' \<mapsto> JStr ''r1'']]" "id :: jsobj \<Rightarrow> jsobj"
      "fst (action (id :: jsobj \<Rightarrow> jsobj)
                (bind_all id [(''MOUSE_MOVE'', []), (''SELECT_REGION'', [''region''])] initial_cache)
                ''CHANGE_REGION'' [''region''])"
      "snd (action (id :: jsobj \<Rightarrow> jsobj)
                (bind_all id [(''MOUSE_MOVE'', []), (''SELECT_REGION'', [''region''])] initial_cache)
                ''CHANGE_REGION'' [''region''])"
      "[(''DELETE_REGION'', [''region''])]"]
  by (simp add: plain_call_def spec_action_def)

text \<open>
  For the parameter name \<^verbatim>\<open>__proto__\<close> the dispatched record has no such field: on a fresh
  table, the callable bound for \<^verbatim>\<open>"X"\<close> with \<^verbatim>\<open>["__proto__"]\<close>, invoked with \<^verbatim>\<open>1\<close>, dispatches
  \<^verbatim>\<open>{type: "X"}\<close>.
\<close>

theorem built_action_proto_counterexample:
  "call_ref (snd (action (id :: jsobj \<Rightarrow> jsobj) initial_cache ''X'' [''__proto__'']))
            (fst (action (id :: jsobj \<Rightarrow> jsobj) initial_cache ''X'' [''__proto__'']))
            [JNum 1]
     = Some (Inr [''type'' \<mapsto> JStr ''X''])
   \<and> spec_action ''X'' [''__proto__''] [JNum 1] = [''type'' \<mapsto> JStr ''X'', ''__proto__'' \<mapsto> JNum 1]
   \<and> [''type'' \<mapsto> JStr ''X''] ''__proto__'' = None
   \<and> spec_action ''X'' [''__proto__''] [JNum 1] ''__proto__'' = Some (JNum 1)"
  by (simp add: action_def initial_cache_def call_ref_def call_fn_def built_action_def
      spec_action_def empty_object_def assign_prop_def assign_at_Object_prototype_def
      proto_setter_def arg_at_def)

text \<open>
  The condition on the names of the binds is needed as well: after a bind of \<^verbatim>\<open>"X"\<close> with
  \<^verbatim>\<open>["a", "b"]\<close>, the callable bound for \<^verbatim>\<open>"X"\<close> with \<^verbatim>\<open>["a,b"]\<close> is the one of the first
  bind, and invoked with \<^verbatim>\<open>1\<close> it dispatches \<^verbatim>\<open>{type: "X", a: 1, b: undefined}\<close>.
\<close>

lemma key_collision_wrong_fields:
  "call_ref (snd (action (id :: jsobj \<Rightarrow> jsobj) (snd (action id initial_cache ''X'' [''a'', ''b''])) ''X'' [''a,b'']))
            (fst (action (id :: jsobj \<Rightarrow> jsobj) (snd (action id initial_cache ''X'' [''a'', ''b''])) ''X'' [''a,b'']))
            [JNum 1]
     = Some (Inr [''type'' \<mapsto> JStr ''X'', ''a'' \<mapsto> JNum 1, ''b'' \<mapsto> JUndefined])
   \<and> spec_action ''X'' [''a,b''] [JNum 1] = [''type'' \<mapsto> JStr ''X'', ''a,b'' \<mapsto> JNum 1]"
  by (simp add: action_def initial_cache_def fnKey_def call_ref_def call_fn_def built_action_def
      spec_action_def empty_object_def assign_prop_def assign_at_Object_prototype_def arg_at_def)

subsection \<open>No parameter names\<close>

text \<open>
  C4 (zero-param spread), as the code has it. Take one dispatch sink and a table on which
  every bind so far had an action kind without an opening parenthesis and parameter names
  that are non-empty and contain no comma. For every such kind bound with no parameter
  names, the callable the bind returns, invoked then or after any later binds with a record
  (frozen or not) as its first argument, does not throw and dispatches \<^verbatim>\<open>{type}\<close> merged
  with the fields of that record: the fields are \<^verbatim>\<open>type\<close> and those of the record, every
  field of the record keeps its value, and \<^verbatim>\<open>type\<close> is the action kind unless the record
  has a \<^verbatim>\<open>type\<close> field of its own.
\<close>

theorem zero_param_spread:
  assumes "\<forall>(t, ps) \<in> set earlier. plain_call t ps"
    and "CHR ''('' \<notin> set type"
    and "action d (bind_all d earlier initial_cache) type [] = (f, st)"
    and "a = JObj body \<or> a = JFrozen body"
  shows "call_ref (bind_all d later st) f (a # rest) = Some (Inr (d ([''type'' \<mapsto> JStr type] ++ body)))
   \<and> dom ([''type'' \<mapsto> JStr type] ++ body) = insert ''type'' (dom body)
   \<and> (\<forall>k v. body k = Some v \<longrightarrow> ([''type'' \<mapsto> JStr type] ++ body) k = Some v)
   \<and> (body ''type'' = None \<longrightarrow> ([''type'' \<mapsto> JStr type] ++ body) ''type'' = Some (JStr type))"
proof -
  have "plain_call type []" using assms(2) by (simp add: plain_call_def)
  with assms(1) have "call_ref (bind_all d later st) f (a # rest)
          = Some (call_fn \<lparr>fn_dispatch = d, fn_type = type, fn_params = []\<rparr> (a # rest))"
    using assms(3) by (rule bound_callable_dispatches)
  moreover have "spread a = body" using assms(4) by auto
  ultimately have "call_ref (bind_all d later st) f (a # rest)
                     = Some (Inr (d ([''type'' \<mapsto> JStr type] ++ body)))"
    by (simp add: call_fn_def built_action_def arg_at_def)
  then show ?thesis by (auto simp: map_add_def split: option.splits)
qed

text \<open>
  After a bind of \<^verbatim>\<open>"SELECT_REGION"\<close>, the callable bound for \<^verbatim>\<open>"RESTORE_HISTORY"\<close> with no
  names, invoked with \<^verbatim>\<open>{h: 1}\<close> after a further bind, dispatches
  \<^verbatim>\<open>{type: "RESTORE_HISTORY", h: 1}\<close>.
\<close>

theorem zero_param_spread_witness:
  "call_ref
     (bind_all id [(''CHANGE_VIDEO_TIME'', [''newTime''])]
        (snd (action (id :: jsobj \<Rightarrow> jsobj)
                (bind_all id [(''SELECT_REGION'', [''region''])] initial_cache)
                ''RESTORE_HISTORY'' [])))
     (fst (action (id :: jsobj \<Rightarrow> jsobj)
                (bind_all id [(''SELECT_REGION'', [''region''])] initial_cache)
                ''RESTORE_HISTORY'' []))
     [JObj [''h'' \<mapsto> JNum 1]]
   = Some (Inr [''type'' \<mapsto> JStr ''RESTORE_HISTORY'', ''h'' \<mapsto> JNum 1])"
  using zero_param_spread [of "[(''SELECT_REGION'', [''region''])]" "''RESTORE_HISTORY''"
      "id :: jsobj \<Rightarrow> jsobj"
      "fst (action (id :: jsobj \<Rightarrow> jsobj)
                (bind_all id [(''SELECT_REGION'', [''region''])] initial_cache)
                ''RESTORE_HISTORY'' [])"
      "snd (action (id :: jsobj \<Rightarrow> jsobj)
                (bind_all id [(''SELECT_REGION'', [''region''])] initial_cache)
                ''RESTORE_HISTORY'' [])"
      "JObj [''h'' \<mapsto> JNum 1]" "[''h'' \<mapsto> JNum 1]"
      "[(''CHANGE_VIDEO_TIME'', [''newTime''])]" "[]"]
  by (simp add: plain_call_def)

text \<open>
  The empty list of names and the list of one empty name share the key \<^verbatim>\<open>X()\<close>: after a
  bind of \<^verbatim>\<open>"X"\<close> with \<^verbatim>\<open>[""]\<close>, the callable bound for \<^verbatim>\<open>"X"\<close> with no names is the one of the
  first bind, and invoked with \<^verbatim>\<open>{h: 1}\<close> it dispatches \<^verbatim>\<open>{type: "X", "": {h: 1}}\<close>, where
  nothing is spread and there is no field \<^verbatim>\<open>h\<close>.
\<close>

theorem zero_param_collision_counterexample:
  "call_ref (snd (action (id :: jsobj \<Rightarrow> jsobj) (snd (action id initial_cache ''X'' [''''])) ''X'' []))
            (fst (action (id :: jsobj \<Rightarrow> jsobj) (snd (action id initial_cache ''X'' [''''])) ''X'' []))
            [JObj [''h'' \<mapsto> JNum 1]]
     = Some (Inr [''type'' \<mapsto> JStr ''X'', '''' \<mapsto> JObj [''h'' \<mapsto> JNum 1]])
   \<and> [''type'' \<mapsto> JStr ''X'', '''' \<mapsto> JObj [''h'' \<mapsto> JNum 1]] ''h'' = None
   \<and> ([''type'' \<mapsto> JStr ''X''] ++ [''h'' \<mapsto> JNum 1]) ''h'' = Some (JNum 1)"
  by (simp add: action_def initial_cache_def fnKey_def call_ref_def call_fn_def built_action_def
      empty_object_def assign_prop_def assign_at_Object_prototype_def arg_at_def)

subsection \<open>Fewer arguments than names\<close>

lemma spec_fields_last:
  "length as = length ps \<Longrightarrow> p \<in> set (drop k ps) \<Longrightarrow>
   (\<forall>j. k \<le> j \<and> j < length ps \<longrightarrow> as ! j = u) \<Longrightarrow>
   spec_fields m ps as p = Some u"
proof (induction ps arbitrary: m as k)
  case Nil
  then show ?case by simp
next
  case (Cons q ps)
  then obtain a as' where as: "as = a # as'" by (cases as) auto
  show ?case
  proof (cases k)
    case 0
    have tail: "\<forall>j. 0 \<le> j \<and> j < length ps \<longrightarrow> as' ! j = u"
    proof (intro allI impI)
      fix j assume "0 \<le> j \<and> j < length ps"
      then have "as ! Suc j = u" using Cons.prems(3) 0 by simp
      then show "as' ! j = u" using as by simp
    qed
    show ?thesis
    proof (cases "p \<in> set ps")
      case True
      have "spec_fields (m(q \<mapsto> a)) ps as' p = Some u"
        using Cons.prems as True tail by (intro Cons.IH [where k = 0]) auto
      then show ?thesis using as by simp
    next
      case False
      then have q: "q = p" using Cons.prems(2) 0 by auto
      have "as ! 0 = u" using Cons.prems(3) 0 by simp
      then have a: "a = u" using as by simp
      have "spec_fields (m(q \<mapsto> a)) ps as' p = (m(q \<mapsto> a)) p"
        using False by (rule spec_fields_notin)
      then show ?thesis using q a as by simp
    qed
  next
    case (Suc k')
    have tail: "\<forall>j. k' \<le> j \<and> j < length ps \<longrightarrow> as' ! j = u"
    proof (intro allI impI)
      fix j assume "k' \<le> j \<and> j < length ps"
      then have "as ! Suc j = u" using Cons.prems(3) Suc by simp
      then show "as' ! j = u" using as by simp
    qed
    have "spec_fields (m(q \<mapsto> a)) ps as' p = Some u"
      using Cons.prems as Suc tail by (intro Cons.IH [where k = k']) auto
    then show ?thesis using as by simp
  qed
qed

text \<open>
  C6 (missing arguments), as the code has it. Take one dispatch sink and a table on which
  every bind so far had an action kind without an opening parenthesis and parameter names
  that are non-empty and contain no comma. For every such kind and list of such names, none
  of them \<^verbatim>\<open>__proto__\<close>, the callable the bind returns, invoked then or after any later binds
  with fewer arguments than names, raises nothing: it dispatches an action whose fields are
  \<^verbatim>\<open>type\<close> and the parameter names, and in which every parameter without an argument is
  undefined.
\<close>

theorem missing_args_undefined:
  assumes "\<forall>(t, ps) \<in> set earlier. plain_call t ps"
    and "plain_call type params" and "''__proto__'' \<notin> set params"
    and "length args < length params"
    and "action d (bind_all d earlier initial_cache) type params = (f, st)"
  shows "\<exists>r. call_ref (bind_all d later st) f args = Some (Inr (d r))
             \<and> dom r = insert ''type'' (set params)
             \<and> (\<forall>i. length args \<le> i \<and> i < length params \<longrightarrow> r (params ! i) = Some JUndefined)"
proof -
  let ?padded = "map (arg_at args) [0..<length params]"
  let ?r = "spec_action type params ?padded"
  have ne: "params \<noteq> []" using assms(4) by auto
  have "call_ref (bind_all d later st) f args
          = Some (call_fn \<lparr>fn_dispatch = d, fn_type = type, fn_params = params\<rparr> args)"
    using assms(1,2,5) by (rule bound_callable_dispatches)
  moreover have "built_action type params args = Inr ?r"
    using ne assms(3) by (rule built_action_plain)
  ultimately have call: "call_ref (bind_all d later st) f args = Some (Inr (d ?r))"
    by (simp add: call_fn_def)
  have d: "dom ?r = insert ''type'' (set params)"
    by (simp add: spec_action_def dom_spec_fields)
  have u: "?r (params ! i) = Some JUndefined" if "length args \<le> i" "i < length params" for i
  proof -
    have "params ! i \<in> set (drop i params)"
      using that(2) by (metis Cons_nth_drop_Suc list.set_intros(1))
    moreover have "\<forall>j. i \<le> j \<and> j < length params \<longrightarrow> ?padded ! j = JUndefined"
      using that(1) by (simp add: arg_at_def)
    ultimately show ?thesis
      unfolding spec_action_def by (intro spec_fields_last [where k = i]) auto
  qed
  show ?thesis using call d u by blast
qed

text \<open>
  After a bind of \<^verbatim>\<open>"SELECT_REGION"\<close>, the callable bound for \<^verbatim>\<open>"BEGIN_BOX_TRANSFORM"\<close> with
  \<^verbatim>\<open>["box", "directions"]\<close>, invoked with one argument after a further bind.
\<close>

theorem missing_args_undefined_witness:
  "call_ref
     (bind_all id [(''MOUSE_UP'', [])]
        (snd (action (id :: jsobj \<Rightarrow> jsobj)
                (bind_all id [(''SELECT_REGION'', [''region''])] initial_cache)
                ''BEGIN_BOX_TRANSFORM'' [''box'', ''directions''])))
     (fst (action (id :: jsobj \<Rightarrow> jsobj)
                (bind_all id [(''SELECT_REGION'', [''region''])] initial_cache)
                ''BEGIN_BOX_TRANSFORM'' [''box'', ''directions'']))
     [JStr ''b'']
   = Some (Inr [''type'' \<mapsto> JStr ''BEGIN_BOX_TRANSFORM'', ''box'' \<mapsto> JStr ''b'',
                ''directions'' \<mapsto> JUndefined])"
  using missing_args_undefined [of "[(''SELECT_REGION'', [''region''])]"
      "''BEGIN_BOX_TRANSFORM''" "[''box'', ''directions'']" "[JStr ''b'']" "id :: jsobj \<Rightarrow> jsobj"
      "fst (action (id :: jsobj \<Rightarrow> jsobj)
                (bind_all id [(''SELECT_REGION'', [''region''])] initial_cache)
                ''BEGIN_BOX_TRANSFORM'' [''box'', ''directions''])"
      "snd (action (id :: jsobj \<Rightarrow> jsobj)
                (bind_all id [(''SELECT_REGION'', [''region''])] initial_cache)
                ''BEGIN_BOX_TRANSFORM'' [''box'', ''directions''])"
      "[(''MOUSE_UP'', [])]"]
  by (simp add: action_def initial_cache_def fnKey_def plain_call_def call_ref_def call_fn_def
      built_action_def empty_object_def assign_prop_def assign_at_Object_prototype_def arg_at_def
      nth_append)

text \<open>
  With the name \<^verbatim>\<open>__proto__\<close> the call can throw: on a fresh table, the callable bound for
  \<^verbatim>\<open>"X"\<close> with \<^verbatim>\<open>["__proto__", "a"]\<close>, invoked with the frozen object \<^verbatim>\<open>{a: 1}\<close> alone, makes
  that object the prototype of the accumulator, and the assignment of the missing \<^verbatim>\<open>a\<close>
  then meets a read-only property and throws a TypeError. No action is dispatched.
\<close>

theorem missing_args_frozen_prototype_counterexample:
  "call_ref (snd (action (id :: jsobj \<Rightarrow> jsobj) initial_cache ''X'' [''__proto__'', ''a'']))
            (fst (action (id :: jsobj \<Rightarrow> jsobj) initial_cache ''X'' [''__proto__'', ''a'']))
            [JFrozen [''a'' \<mapsto> JNum 1]]
     = Some (Inl TypeError)"
  by (simp add: action_def initial_cache_def call_ref_def call_fn_def built_action_def
      empty_object_def assign_prop_def assign_at_Object_prototype_def proto_setter_def arg_at_def)

text \<open>
  The condition on the names of the binds is needed as well: after a bind of \<^verbatim>\<open>"X"\<close> with
  \<^verbatim>\<open>["a", "b,a"]\<close>, the callable bound for \<^verbatim>\<open>"X"\<close> with \<^verbatim>\<open>["a,b", "a"]\<close> is the one of the
  first bind, and invoked with \<^verbatim>\<open>5\<close> alone it dispatches \<^verbatim>\<open>{type: "X", a: 5, "b,a": undefined}\<close>:
  the parameter \<^verbatim>\<open>a\<close>, which has no argument, holds \<^verbatim>\<open>5\<close>.
\<close>

lemma key_collision_missing_defined:
  "call_ref (snd (action (id :: jsobj \<Rightarrow> jsobj) (snd (action id initial_cache ''X'' [''a'', ''b,a''])) ''X'' [''a,b'', ''a'']))
            (fst (action (id :: jsobj \<Rightarrow> jsobj) (snd (action id initial_cache ''X'' [''a'', ''b,a''])) ''X'' [''a,b'', ''a'']))
            [JNum 5]
     = Some (Inr [''type'' \<mapsto> JStr ''X'', ''a'' \<mapsto> JNum 5, ''b,a'' \<mapsto> JUndefined])"
  by (simp add: action_def initial_cache_def fnKey_def call_ref_def call_fn_def built_action_def
      empty_object_def assign_prop_def assign_at_Object_prototype_def arg_at_def)

section \<open>The regions given to the canvas\<close>

lemma canvas_regions_resolved:
  "annotationType st = ''image'' \<Longrightarrow>
   canvas_regions st (Some img) implied
     = Inr (case img_regions img of None \<Rightarrow> [] | Some rs \<Rightarrow> rs)"
  by (simp add: canvas_regions_def)

lemma canvas_regions_other_mode:
  "annotationType st \<noteq> ''image'' \<Longrightarrow> canvas_regions st active implied = Inr implied"
  by (simp add: canvas_regions_def)

text \<open>
  C1 (canvas regions in image mode). The claim wants the empty region set when no active
  image resolves. In image mode with an absent \<^verbatim>\<open>activeImage\<close> the expression
  \<^verbatim>\<open>activeImage.regions || []\<close> throws a TypeError, so no canvas element is built. With an
  active image the claim holds (\<open>canvas_regions_resolved\<close>).
\<close>

theorem canvas_regions_absent_image_faults:
  "canvas_regions (st\<lparr>annotationType := ''image''\<rparr>) None implied = Inl TypeError
   \<and> ImageCanvas (st\<lparr>annotationType := ''image''\<rparr>) (env\<lparr>activeImage := None\<rparr>) = Inl TypeError"
  by (simp add: canvas_regions_def ImageCanvas_def)

section \<open>The debug panel\<close>

lemma debug_item_cases:
  "debug_item st env =
     (case ANNOTATE_DEBUG_MODE env of
        None \<Rightarrow> None
      | Some s \<Rightarrow> if s = [] then None else Some (DebugBox (Bool True) (lastAction st)))"
  by (simp add: debug_item_def debugModeOn_def js_and_def storage_item_def split: option.splits)

lemma debug_item_in_sidebar:
  "debug_item st env = Some b \<Longrightarrow> hd (rightSidebarItems st env) = b"
  by (simp add: rightSidebarItems_def)

text \<open>
  C7 (debug flag). With the flag set to \<^verbatim>\<open>"true"\<close> the panel is rendered and receives
  \<^verbatim>\<open>lastAction\<close>, but its \<^verbatim>\<open>state\<close> prop is the boolean \<^verbatim>\<open>debugModeOn\<close>, not the state. The
  Sidebar of the second return is given \<^verbatim>\<open>$ANNOTATE_DEBUG_MODE && state\<close>, which is the
  state.
\<close>

theorem debug_box_receives_flag:
  "debug_item st (env\<lparr>ANNOTATE_DEBUG_MODE := Some ''true''\<rparr>)
     = Some (DebugBox (Bool True) (lastAction st))
   \<and> Bool True \<noteq> StateObject st
   \<and> fs_sidebar_debug (Fullscreen_layout st (env\<lparr>ANNOTATE_DEBUG_MODE := Some ''true''\<rparr>) next_img cv)
     = StateObject st"
  by (simp add: debug_item_def debugModeOn_def js_and_def storage_item_def Fullscreen_layout_def)

section \<open>Implied regions at a keyframe\<close>

text \<open>
  C8 (implied region passthrough). For a keyframe mapping with unique keys and a time that
  is one of its keys, the implied region set is that keyframe's region set, unmodified.
\<close>

theorem implied_regions_passthrough:
  assumes "distinct (map fst kfs)" and "(t, rs) \<in> set kfs"
  shows "impliedRegions between kfs t = rs"
proof -
  have "map_of kfs t = Some rs" using assms by (rule map_of_is_SomeI)
  then show ?thesis by (simp add: impliedRegions_def)
qed

text \<open>Keyframes \<^verbatim>\<open>{0: {R0}, 1000: {R1}}\<close> at the times 0 and 1000.\<close>

theorem implied_regions_passthrough_witness:
  "impliedRegions (\<lambda>t0 r0 t1 r1 t. r0 @ r1) [(0, [JStr ''R0'']), (1000, [JStr ''R1''])] 0
     = [JStr ''R0'']
   \<and> impliedRegions (\<lambda>t0 r0 t1 r1 t. r0 @ r1) [(0, [JStr ''R0'']), (1000, [JStr ''R1''])] 1000
     = [JStr ''R1'']"
  using implied_regions_passthrough [of "[(0, [JStr ''R0'']), (1000, [JStr ''R1''])]" 0 "[JStr ''R0'']"
      "\<lambda>t0 r0 t1 r1 t. r0 @ r1"]
    implied_regions_passthrough [of "[(0, [JStr ''R0'']), (1000, [JStr ''R1''])]" 1000 "[JStr ''R1'']"
      "\<lambda>t0 r0 t1 r1 t. r0 @ r1"]
  by simp

section \<open>The refocus handler on a pointer event\<close>

text \<open>
  C9 (refocus rule). When the surface contains the focused element, the handler changes
  nothing. Otherwise, when the event's target is within the surface, \<^verbatim>\<open>focus()\<close> is called
  on the surface container and then on the target. In every other case (no surface is
  mounted, or the target is outside it) nothing changes.
\<close>

theorem refocus_cases:
  "(\<forall>c. innerContainerRef = Some c \<and> contains c (activeElement doc) \<longrightarrow>
        refocusOnMouseEvent innerContainerRef target doc = doc)
   \<and> (\<forall>c. innerContainerRef = Some c \<and> \<not> contains c (activeElement doc) \<and> contains c (Some target) \<longrightarrow>
        refocusOnMouseEvent innerContainerRef target doc = focus target (focus (root_id c) doc)
        \<and> focus_calls (refocusOnMouseEvent innerContainerRef target doc)
            = focus_calls doc @ [root_id c, target])
   \<and> (innerContainerRef = None
        \<or> (\<exists>c. innerContainerRef = Some c \<and> \<not> contains c (activeElement doc) \<and> \<not> contains c (Some target)) \<longrightarrow>
        refocusOnMouseEvent innerContainerRef target doc = doc)"
  by (auto simp: refocusOnMouseEvent_def focus_def)

text \<open>
  A surface 1 with a child 2 and an input 3; element 9 is outside. Only 1 and 3 take focus.
  Focus on 3 inside: no change. Focus on 9 outside and a pointer event on 2: \<^verbatim>\<open>focus()\<close> on
  1 and on 2, and 1 ends up focused. A pointer event on 9: no change.
\<close>

theorem refocus_cases_witness:
  "refocusOnMouseEvent (Some (Element 1 [Element 2 [], Element 3 []])) 2
       \<lparr>activeElement = Some 3, focusable = (\<lambda>n. n = 1 \<or> n = 3), focus_calls = []\<rparr>
     = \<lparr>activeElement = Some 3, focusable = (\<lambda>n. n = 1 \<or> n = 3), focus_calls = []\<rparr>
   \<and> refocusOnMouseEvent (Some (Element 1 [Element 2 [], Element 3 []])) 2
       \<lparr>activeElement = Some 9, focusable = (\<lambda>n. n = 1 \<or> n = 3), focus_calls = []\<rparr>
     = \<lparr>activeElement = Some 1, focusable = (\<lambda>n. n = 1 \<or> n = 3), focus_calls = [1, 2]\<rparr>
   \<and> refocusOnMouseEvent (Some (Element 1 [Element 2 [], Element 3 []])) 9
       \<lparr>activeElement = Some 9, focusable = (\<lambda>n. n = 1 \<or> n = 3), focus_calls = []\<rparr>
     = \<lparr>activeElement = Some 9, focusable = (\<lambda>n. n = 1 \<or> n = 3), focus_calls = []\<rparr>"
  using refocus_cases [of "Some (Element 1 [Element 2 [], Element 3 []])"
      "\<lparr>activeElement = Some 3, focusable = (\<lambda>n. n = 1 \<or> n = 3), focus_calls = []\<rparr>" 2]
    refocus_cases [of "Some (Element 1 [Element 2 [], Element 3 []])"
      "\<lparr>activeElement = Some 9, focusable = (\<lambda>n. n = 1 \<or> n = 3), focus_calls = []\<rparr>" 2]
    refocus_cases [of "Some (Element 1 [Element 2 [], Element 3 []])"
      "\<lparr>activeElement = Some 9, focusable = (\<lambda>n. n = 1 \<or> n = 3), focus_calls = []\<rparr>" 9]
  by (simp add: contains_def focus_def)

section \<open>The render result\<close>

text \<open>
  The two returns. Whenever the statements before the first return do not fault, the
  render result is the Workspace layout of the first return. No input yields the
  Fullscreen layout of the second return, with its Header title, refocus handler,
  \<^verbatim>\<open>nextVideoFrameHasRegions\<close> flag and SettingsDialog, and no input falls off the end of
  the body. The statements before the first return do not fault when the mode is not
  image mode or an active image is present, and the image index is absent or the image
  list is present.
\<close>

lemma main_layout_first_return:
  "MainLayout st env =
     (case nextImage st (currentImageIndex env) of
        Inl e \<Rightarrow> Inl e
      | Inr next_img \<Rightarrow>
          (case ImageCanvas st env of
             Inl e \<Rightarrow> Inl e
           | Inr cv \<Rightarrow> Inr (Return (Workspace (Workspace_layout st env cv)))))
   \<and> MainLayout st env \<noteq> Inr (Return (Fullscreen fs))
   \<and> MainLayout st env \<noteq> Inr Normal
   \<and> ((annotationType st \<noteq> ''image'' \<or> activeImage env \<noteq> None) \<and>
       (currentImageIndex env = None \<or> images st \<noteq> None) \<longrightarrow>
         (\<exists>cv. ImageCanvas st env = Inr cv \<and>
               MainLayout st env = Inr (Return (Workspace (Workspace_layout st env cv)))))"
  by (auto simp: MainLayout_def then_stmt_def nextImage_def ImageCanvas_def canvas_regions_def
      split: sum.splits option.splits)

text \<open>
  Image mode, one image \<^verbatim>\<open>a\<close> that is selected and resolves: the Workspace layout with the
  five header items, the region selector and the history box around the canvas.
\<close>

lemma main_layout_first_return_example:
  "MainLayout
     \<lparr>annotationType = ''image'', selectedImage = Some ''a'',
      images = Some [\<lparr>img_src = ''a'', img_name = Some ''A'', img_regions = None,
                       img_frameTime = JUndefined, img_realSize = None\<rparr>],
      selectedImageFrameTime = None, currentVideoTime = None, videoSrc = None,
      videoName = None, videoPlaying = False, videoDuration = None, keyframes = None,
      selectedTool = ''select'', taskDescription = None, labelImages = False,
      history = [], lastAction = JUndefined, fullScreen = False, settingsOpen = False\<rparr>
     \<lparr>currentImageIndex = Some 0,
      activeImage = Some \<lparr>img_src = ''a'', img_name = Some ''A'', img_regions = None,
                           img_frameTime = JUndefined, img_realSize = None\<rparr>,
      impliedVideoRegions = [], ANNOTATE_DEBUG_MODE = None\<rparr>
   = Inr (Return (Workspace
       \<lparr>ws_headerLeftSide = [],
        ws_headerItems = [''Prev'', ''Next'', ''Settings'', ''Fullscreen'', ''Save''],
        ws_iconSidebarItems = iconSidebarItems,
        ws_rightSidebarItems = [RegionSelector None, HistorySidebarBox []],
        ws_children =
          \<lparr>cv_key = Some ''a'', cv_regions = [], cv_realSize = None, cv_videoPlaying = False,
           cv_imageSrc = Some ''a'', cv_videoSrc = None, cv_createWithPrimary = False,
           cv_dragWithPrimary = False, cv_zoomWithPrimary = False, cv_videoTime = None\<rparr>\<rparr>))"
  using main_layout_first_return [of
     "\<lparr>annotationType = ''image'', selectedImage = Some ''a'',
      images = Some [\<lparr>img_src = ''a'', img_name = Some ''A'', img_regions = None,
                       img_frameTime = JUndefined, img_realSize = None\<rparr>],
      selectedImageFrameTime = None, currentVideoTime = None, videoSrc = None,
      videoName = None, videoPlaying = False, videoDuration = None, keyframes = None,
      selectedTool = ''select'', taskDescription = None, labelImages = False,
      history = [], lastAction = JUndefined, fullScreen = False, settingsOpen = False\<rparr>"
     "\<lparr>currentImageIndex = Some 0,
      activeImage = Some \<lparr>img_src = ''a'', img_name = Some ''A'', img_regions = None,
                           img_frameTime = JUndefined, img_realSize = None\<rparr>,
      impliedVideoRegions = [], ANNOTATE_DEBUG_MODE = None\<rparr>"]
  by (simp add: nextImage_def ImageCanvas_def canvas_regions_def Workspace_layout_def
      headerLeftSide_def headerItems_def rightSidebarItems_def debug_item_def debugModeOn_def
      js_and_def storage_item_def)

text \<open>
  C10 (the render result is the layout of the first return). The claim wants the
  Workspace layout for every input. In image mode with one image \<^verbatim>\<open>a\<close> and
  \<^verbatim>\<open>selectedImage\<close> naming no entry, no active image resolves and the render throws a
  TypeError while it builds the canvas, before it reaches the first return: there is no
  render result. On every input without that fault the claim holds, and the second return
  is never reached (\<open>main_layout_first_return\<close>).
\<close>

theorem main_layout_faults_without_active_image:
  "MainLayout
     \<lparr>annotationType = ''image'', selectedImage = Some ''z'',
      images = Some [\<lparr>img_src = ''a'', img_name = Some ''A'', img_regions = None,
                       img_frameTime = JUndefined, img_realSize = None\<rparr>],
      selectedImageFrameTime = None, currentVideoTime = None, videoSrc = None,
      videoName = None, videoPlaying = False, videoDuration = None, keyframes = None,
      selectedTool = ''select'', taskDescription = None, labelImages = False,
      history = [], lastAction = JUndefined, fullScreen = False, settingsOpen = False\<rparr>
     \<lparr>currentImageIndex = None, activeImage = None,
      impliedVideoRegions = [], ANNOTATE_DEBUG_MODE = None\<rparr>
   = Inl TypeError"
  by (simp add: MainLayout_def nextImage_def ImageCanvas_def canvas_regions_def)

end
